theory Spec2Isabelle
  imports Main
begin

section \<open>The lightbox of katgrapher.studio (dist/scripts/lightbox.js)\<close>

text \<open>
  The lightbox keeps its state in the browser: two properties of \<open>window\<close>
  (\<open>lightboxPhotos\<close>, \<open>lightboxCurrentIndex\<close>), the class list and the attributes of
  four DOM elements, the pending \<open>setTimeout\<close> callbacks and four variables captured
  by the touch handlers. The model threads that state through every function as a record.
  JavaScript numbers are modelled as \<open>int\<close> (indices and pixel coordinates are integral),
  \<open>undefined\<close> and \<open>null\<close> as \<open>None\<close>. Calls of \<open>console.log\<close> and of
  \<open>e.preventDefault()\<close> leave the state of the page untouched and are not recorded.
\<close>

subsection \<open>Data\<close>

text \<open>The \<open>img\<close> element inside a gallery item, with the attributes the lightbox reads.\<close>

record img_elem =
  dataset_lightboxSrc :: "string option"
  img_src :: string
  dataset_lightboxCaption :: "string option"
  img_alt :: string

text \<open>A \<open>.photo-item\<close> element; \<open>item_img\<close> is the result of \<open>querySelector('img')\<close>.\<close>

record photo_item =
  item_img :: "img_elem option"

text \<open>The closures handed to \<open>setTimeout\<close>, by the place that creates them.\<close>

datatype timer_cb =
    FadeIn
  | HideOverlay
  | SwapImage string string
  | RemoveAnnouncement nat

datatype js_error = TypeError

record page =
  has_lightbox :: bool
  has_image :: bool
  has_caption :: bool
  has_flex :: bool
  lb_visible :: bool
  lb_hidden :: bool
  lb_opacity100 :: bool
  flex_opacity100 :: bool
  css_animation_duration :: string
  image_src :: string
  image_alt :: string
  image_opacity :: string
  caption_text :: string
  body_overflow :: string
  escape_listener :: bool
  lightboxPhotos :: "photo_item list option"
  lightboxCurrentIndex :: "int option"
  lastFocusedPhoto :: "nat option"
  activeElement :: "nat option"
  lb_focusables :: "nat list"
  focus_traps :: "(nat \<times> nat) list"
  head_preloads :: "string list"
  announcements :: "(nat \<times> string) list"
  next_node :: nat
  timers :: "(nat \<times> timer_cb) list"

text \<open>The variables \<open>startX\<close>, \<open>startY\<close>, \<open>currentX\<close>, \<open>currentY\<close> of \<open>initTouchSupport\<close>.\<close>

record touch =
  startX :: int
  startY :: int
  currentX :: int
  currentY :: int

subsection \<open>JavaScript operators\<close>

text \<open>\<open>a || b\<close> on an attribute that may be undefined: the empty string is falsy too.\<close>

definition or_str :: "string option \<Rightarrow> string \<Rightarrow> string" where
  "or_str a b = (case a of None \<Rightarrow> b | Some x \<Rightarrow> if x = [] then b else x)"

text \<open>\<open>n || 0\<close> on a number that may be undefined.\<close>

definition or_zero :: "int option \<Rightarrow> int" where
  "or_zero a = (case a of None \<Rightarrow> 0 | Some n \<Rightarrow> n)"

text \<open>A number inside a template literal.\<close>

fun show_nat :: "nat \<Rightarrow> string" where
  "show_nat n =
     (if n < 10 then [''0123456789'' ! n]
      else show_nat (n div 10) @ [''0123456789'' ! (n mod 10)])"

definition show_int :: "int \<Rightarrow> string" where
  "show_int i = (if i < 0 then CHR ''-'' # show_nat (nat (- i)) else show_nat (nat i))"

subsection \<open>Preloading and announcing\<close>

definition photo_src :: "img_elem \<Rightarrow> string" where
  "photo_src img = or_str (dataset_lightboxSrc img) (img_src img)"

definition photo_caption :: "img_elem \<Rightarrow> string" where
  "photo_caption img = or_str (dataset_lightboxCaption img) (img_alt img)"

definition preloadIndices :: "int \<Rightarrow> photo_item list \<Rightarrow> int list" where
  "preloadIndices currentIndex photoItems =
     filter (\<lambda>index. index \<ge> 0 \<and> index < int (length photoItems) \<and> index \<noteq> currentIndex)
       [currentIndex - 1, currentIndex, currentIndex + 1, currentIndex + 2]"

text \<open>The body of the \<open>forEach\<close>: one \<open>link rel="preload"\<close> appended to \<open>head\<close>.\<close>

definition preload_one :: "photo_item list \<Rightarrow> int \<Rightarrow> page \<Rightarrow> page" where
  "preload_one photoItems index s =
     (case item_img (photoItems ! nat index) of
        None \<Rightarrow> s
      | Some img \<Rightarrow>
          (let src = photo_src img
           in if src \<noteq> [] then s\<lparr>head_preloads := head_preloads s @ [src]\<rparr> else s))"

definition preloadAdjacentImages :: "int \<Rightarrow> photo_item list \<Rightarrow> page \<Rightarrow> page" where
  "preloadAdjacentImages currentIndex photoItems s =
     fold (preload_one photoItems) (preloadIndices currentIndex photoItems) s"

definition announceToScreenReader :: "string \<Rightarrow> page \<Rightarrow> page" where
  "announceToScreenReader message s =
     s\<lparr>announcements := announcements s @ [(next_node s, message)],
       next_node := Suc (next_node s),
       timers := timers s @ [(1000, RemoveAnnouncement (next_node s))]\<rparr>"

subsection \<open>Navigation\<close>

definition navigateToIndex :: "int \<Rightarrow> page \<Rightarrow> page" where
  "navigateToIndex index s =
     (case lightboxPhotos s of
        None \<Rightarrow> s
      | Some photos \<Rightarrow>
          if index < 0 \<or> index \<ge> int (length photos) then s
          else (case item_img (photos ! nat index) of
                  None \<Rightarrow> s
                | Some img \<Rightarrow>
                    (let src = photo_src img;
                         caption = photo_caption img;
                         s1 = (if has_image s
                               then s\<lparr>image_opacity := ''0'',
                                      timers := timers s @ [(150, SwapImage src caption)]\<rparr>
                               else s);
                         s2 = (if has_caption s1 then s1\<lparr>caption_text := caption\<rparr> else s1);
                         s3 = s2\<lparr>lightboxCurrentIndex := Some index\<rparr>;
                         s4 = preloadAdjacentImages index photos s3
                     in announceToScreenReader
                          (''Image '' @ show_int (index + 1) @ '' of ''
                             @ show_nat (length photos) @ '': '' @ caption) s4)))"

definition navigatePrevious :: "page \<Rightarrow> page" where
  "navigatePrevious s =
     (case lightboxPhotos s of
        None \<Rightarrow> s
      | Some photos \<Rightarrow>
          if length photos = 0 then s
          else (let currentIndex = or_zero (lightboxCurrentIndex s);
                    prevIndex = (if currentIndex > 0 then currentIndex - 1
                                 else int (length photos) - 1)
                in navigateToIndex prevIndex s))"

definition navigateNext :: "page \<Rightarrow> page" where
  "navigateNext s =
     (case lightboxPhotos s of
        None \<Rightarrow> s
      | Some photos \<Rightarrow>
          if length photos = 0 then s
          else (let currentIndex = or_zero (lightboxCurrentIndex s);
                    nextIndex = (if currentIndex < int (length photos) - 1 then currentIndex + 1
                                 else 0)
                in navigateToIndex nextIndex s))"

definition getCurrentIndex :: "page \<Rightarrow> int" where
  "getCurrentIndex s = or_zero (lightboxCurrentIndex s)"

definition getTotalPhotos :: "page \<Rightarrow> nat" where
  "getTotalPhotos s = (case lightboxPhotos s of None \<Rightarrow> 0 | Some photos \<Rightarrow> length photos)"

definition isOpen :: "page \<Rightarrow> bool" where
  "isOpen s = (has_lightbox s \<and> lb_visible s)"

subsection \<open>Opening and closing\<close>

text \<open>
  \<open>getAnimationDuration\<close> reads the custom property \<open>--lightbox-animation-duration\<close>
  from the computed style (the field \<open>css_animation_duration\<close>, empty when the property
  is not set) and takes the first match of \<open>/(\d+)ms/\<close>.
\<close>

definition is_digit :: "char \<Rightarrow> bool" where
  "is_digit c = (c \<in> set ''0123456789'')"

fun match_ms :: "string \<Rightarrow> string option" where
  "match_ms [] = None"
| "match_ms (c # cs) =
     (let ds = takeWhile is_digit (c # cs); rest = dropWhile is_digit (c # cs)
      in if ds \<noteq> [] \<and> take 2 rest = ''ms'' then Some ds else match_ms cs)"

definition parseInt :: "string \<Rightarrow> nat" where
  "parseInt ds = foldl (\<lambda>n c. 10 * n + (of_char c - 48)) 0 ds"

definition getAnimationDuration :: "page \<Rightarrow> nat" where
  "getAnimationDuration s =
     (if \<not> has_lightbox s then 300
      else (let duration = (if css_animation_duration s = [] then ''300ms''
                            else css_animation_duration s)
            in case match_ms duration of None \<Rightarrow> 300 | Some ds \<Rightarrow> parseInt ds))"

text \<open>
  \<open>trapFocus\<close>: \<open>lb_focusables\<close> is the result of the \<open>querySelectorAll\<close>; the listener
  it adds is recorded with the two elements it captured.
\<close>

definition trapFocus :: "page \<Rightarrow> page" where
  "trapFocus s =
     (case lb_focusables s of
        [] \<Rightarrow> s
      | firstFocusable # _ \<Rightarrow>
          s\<lparr>activeElement := Some firstFocusable,
            focus_traps := focus_traps s @ [(firstFocusable, last (lb_focusables s))]\<rparr>)"

definition trap_keydown :: "string \<Rightarrow> bool \<Rightarrow> nat \<times> nat \<Rightarrow> page \<Rightarrow> page" where
  "trap_keydown key shiftKey fl s =
     (if key = ''Tab'' then
        (if shiftKey then
           (if activeElement s = Some (fst fl) then s\<lparr>activeElement := Some (snd fl)\<rparr> else s)
         else
           (if activeElement s = Some (snd fl) then s\<lparr>activeElement := Some (fst fl)\<rparr> else s))
      else s)"

definition openLightbox :: "string \<Rightarrow> string \<Rightarrow> int \<Rightarrow> photo_item list \<Rightarrow> page \<Rightarrow> page" where
  "openLightbox src caption startIndex photoItems s =
     (if \<not> has_lightbox s \<or> \<not> has_image s \<or> \<not> has_caption s then s
      else (let s1 = s\<lparr>image_src := src, image_alt := caption, caption_text := caption\<rparr>;
                s2 = s1\<lparr>lightboxPhotos := Some photoItems,
                        lightboxCurrentIndex := Some startIndex\<rparr>;
                s3 = s2\<lparr>lb_hidden := False, lb_visible := True\<rparr>;
                s4 = s3\<lparr>timers := timers s3 @ [(10, FadeIn)]\<rparr>;
                s5 = trapFocus s4;
                s6 = s5\<lparr>body_overflow := ''hidden''\<rparr>;
                s7 = s6\<lparr>escape_listener := True\<rparr>
            in preloadAdjacentImages startIndex photoItems s7))"

text \<open>\<open>lightboxAPI.open\<close>, with its default parameters \<open>index = 0\<close> and \<open>photos = []\<close>.\<close>

definition lightboxAPI_open ::
  "string \<Rightarrow> string \<Rightarrow> int option \<Rightarrow> photo_item list option \<Rightarrow> page \<Rightarrow> page" where
  "lightboxAPI_open src caption index photos s =
     openLightbox src caption
       (case index of None \<Rightarrow> 0 | Some i \<Rightarrow> i)
       (case photos of None \<Rightarrow> [] | Some ps \<Rightarrow> ps) s"

definition closeLightbox :: "page \<Rightarrow> page" where
  "closeLightbox s =
     (if \<not> has_lightbox s \<or> \<not> lb_visible s then s
      else (let s1 = s\<lparr>lb_opacity100 := False\<rparr>;
                s2 = (if has_flex s1 then s1\<lparr>flex_opacity100 := False\<rparr> else s1);
                s3 = s2\<lparr>timers := timers s2 @ [(getAnimationDuration s2, HideOverlay)]\<rparr>;
                s4 = s3\<lparr>body_overflow := []\<rparr>;
                s5 = s4\<lparr>escape_listener := False\<rparr>
            in case lastFocusedPhoto s5 of
                 None \<Rightarrow> s5
               | Some photo \<Rightarrow> s5\<lparr>activeElement := Some photo, lastFocusedPhoto := None\<rparr>))"

text \<open>
  What a pending timer does when the browser runs it. The fade-in callback calls
  \<open>classList\<close> on the result of \<open>querySelector('.flex')\<close> without a check: \<open>Inl\<close> is
  the exception, with the page as the callback left it.
\<close>

fun run_timer :: "timer_cb \<Rightarrow> page \<Rightarrow> (js_error \<times> page) + page" where
  "run_timer FadeIn s =
     (let s1 = s\<lparr>lb_opacity100 := True\<rparr>
      in if has_flex s1 then Inr (s1\<lparr>flex_opacity100 := True\<rparr>) else Inl (TypeError, s1))"
| "run_timer HideOverlay s = Inr (s\<lparr>lb_hidden := True, lb_visible := False\<rparr>)"
| "run_timer (SwapImage src caption) s =
     Inr (s\<lparr>image_src := src, image_alt := caption, image_opacity := ''1''\<rparr>)"
| "run_timer (RemoveAnnouncement n) s =
     Inr (s\<lparr>announcements := filter (\<lambda>a. fst a \<noteq> n) (announcements s)\<rparr>)"

subsection \<open>Keyboard\<close>

definition handleLightboxKeydown :: "string \<Rightarrow> page \<Rightarrow> (js_error \<times> page) + page" where
  "handleLightboxKeydown key s =
     (if \<not> (has_lightbox s \<and> lb_visible s) then Inr s
      else if key = ''ArrowLeft'' then Inr (navigatePrevious s)
      else if key = ''ArrowRight'' then Inr (navigateNext s)
      else if key = ''Home'' then Inr (navigateToIndex 0 s)
      else if key = ''End'' then
        (case lightboxPhotos s of
           None \<Rightarrow> Inl (TypeError, s)
         | Some photos \<Rightarrow> Inr (navigateToIndex (int (length photos) - 1) s))
      else if key = ''Escape'' then Inr (closeLightbox s)
      else Inr s)"

definition handleEscapeKey :: "string \<Rightarrow> page \<Rightarrow> page" where
  "handleEscapeKey key s = (if key = ''Escape'' then closeLightbox s else s)"

subsection \<open>Touch\<close>

text \<open>
  A touch event is modelled by \<open>e.touches[0]\<close>: the pair \<open>(clientX, clientY)\<close>, or
  \<open>None\<close> when the list of touches is empty.
\<close>

definition touchstart :: "(int \<times> int) option \<Rightarrow> touch \<Rightarrow> touch" where
  "touchstart e t =
     (case e of
        None \<Rightarrow> t
      | Some (clientX, clientY) \<Rightarrow>
          \<lparr>startX = clientX, startY = clientY, currentX = clientX, currentY = clientY\<rparr>)"

definition touchmove :: "(int \<times> int) option \<Rightarrow> touch \<Rightarrow> touch" where
  "touchmove e t =
     (case e of
        None \<Rightarrow> t
      | Some (clientX, clientY) \<Rightarrow> t\<lparr>currentX := clientX, currentY := clientY\<rparr>)"

definition touchend :: "touch \<times> page \<Rightarrow> touch \<times> page" where
  "touchend ts =
     (let t = fst ts; s = snd ts
      in if startX t = 0 \<or> startY t = 0 then (t, s)
         else (let deltaX = currentX t - startX t;
                   deltaY = currentY t - startY t;
                   s1 = (if \<bar>deltaX\<bar> > \<bar>deltaY\<bar> \<and> \<bar>deltaX\<bar> > 50
                         then (if deltaX > 0 then navigatePrevious s else navigateNext s)
                         else s)
               in (\<lparr>startX = 0, startY = 0, currentX = 0, currentY = 0\<rparr>, s1)))"

text \<open>A whole gesture: the finger goes down, moves, and is lifted.\<close>

definition gesture :: "(int \<times> int) \<Rightarrow> (int \<times> int) option list \<Rightarrow> touch \<times> page \<Rightarrow> touch \<times> page" where
  "gesture down moves ts =
     touchend (fold touchmove moves (touchstart (Some down) (fst ts)), snd ts)"

subsection \<open>Pages the lightbox can reach\<close>

text \<open>
  The pages reached from a page whose overlay is not visible by the operations of the
  lightbox and by the timers it sets. The key and touch handlers act through these operations.
\<close>

inductive reachable :: "page \<Rightarrow> bool" where
  loaded: "\<not> lb_visible s \<Longrightarrow> reachable s"
| opened: "reachable s \<Longrightarrow> reachable (openLightbox src caption startIndex photoItems s)"
| closed: "reachable s \<Longrightarrow> reachable (closeLightbox s)"
| went: "reachable s \<Longrightarrow> reachable (navigateToIndex index s)"
| went_next: "reachable s \<Longrightarrow> reachable (navigateNext s)"
| went_previous: "reachable s \<Longrightarrow> reachable (navigatePrevious s)"
| timer: "reachable s \<Longrightarrow> run_timer cb s = Inr s' \<Longrightarrow> reachable s'"
| timer_threw: "reachable s \<Longrightarrow> run_timer cb s = Inl (e, s') \<Longrightarrow> reachable s'"

subsection \<open>Notions used in the statements\<close>

text \<open>The \<open>href\<close> of the link the preloader creates for an item, if it creates one.\<close>

definition preload_href :: "photo_item \<Rightarrow> string option" where
  "preload_href item =
     (case item_img item of
        None \<Rightarrow> None
      | Some img \<Rightarrow> if photo_src img \<noteq> [] then Some (photo_src img) else None)"

text \<open>The Navigation Cursor is defined and inside the stored list of items.\<close>

definition cursor_in_bounds :: "page \<Rightarrow> bool" where
  "cursor_in_bounds s =
     (case lightboxPhotos s of
        None \<Rightarrow> False
      | Some photos \<Rightarrow>
          (case lightboxCurrentIndex s of
             None \<Rightarrow> False
           | Some i \<Rightarrow> 0 \<le> i \<and> i < int (length photos)))"

subsection \<open>The preload window as the specification words it\<close>

text \<open>
  The window \<open>{index-1, index, index+1, index+2}\<close> without the current index, clamped to
  the bounds \<open>[0, n)\<close> of a list of \<open>n\<close> items.
\<close>

definition spec_preload_window :: "int \<Rightarrow> nat \<Rightarrow> int list" where
  "spec_preload_window i n = filter (\<lambda>j. 0 \<le> j \<and> j < int n) [i - 1, i + 1, i + 2]"

subsection \<open>Pages used as examples\<close>

definition photo :: "string \<Rightarrow> string \<Rightarrow> photo_item" where
  "photo url caption =
     \<lparr>item_img = Some \<lparr>dataset_lightboxSrc = Some url, img_src = url,
                       dataset_lightboxCaption = Some caption, img_alt = caption\<rparr>\<rparr>"

definition bare_item :: photo_item where
  "bare_item = \<lparr>item_img = None\<rparr>"

text \<open>The page after loading: the overlay is in the document, hidden, nothing stored.\<close>

definition closed_page :: page where
  "closed_page =
     \<lparr>has_lightbox = True, has_image = True, has_caption = True, has_flex = True,
      lb_visible = False, lb_hidden = True, lb_opacity100 = False, flex_opacity100 = False,
      css_animation_duration = [],
      image_src = [], image_alt = [], image_opacity = [], caption_text = [],
      body_overflow = [], escape_listener = False,
      lightboxPhotos = None, lightboxCurrentIndex = None,
      lastFocusedPhoto = None, activeElement = None,
      lb_focusables = [0], focus_traps = [],
      head_preloads = [], announcements = [], next_node = 0, timers = []\<rparr>"

text \<open>An item whose image has neither a \<open>src\<close> nor a \<open>data-lightbox-src\<close> attribute.\<close>

definition unsourced_item :: photo_item where
  "unsourced_item =
     \<lparr>item_img = Some \<lparr>dataset_lightboxSrc = None, img_src = [],
                       dataset_lightboxCaption = None, img_alt = ''C''\<rparr>\<rparr>"

text \<open>A gallery of three photos, and the lightbox opened on the first and on the last of them.\<close>

definition gallery :: "photo_item list" where
  "gallery = [photo ''a.jpg'' ''A'', photo ''b.jpg'' ''B'', photo ''c.jpg'' ''C'']"

definition open_page :: page where
  "open_page = openLightbox ''a.jpg'' ''A'' 0 gallery closed_page"

definition last_page :: page where
  "last_page = openLightbox ''c.jpg'' ''C'' 2 gallery closed_page"

text \<open>A list whose first item holds no image, opened on its second item.\<close>

definition mixed_page :: page where
  "mixed_page = openLightbox ''b.jpg'' ''B'' 1 [bare_item, photo ''b.jpg'' ''B''] closed_page"

text \<open>The touch variables as \<open>initTouchSupport\<close> initialises them.\<close>

definition no_touch :: touch where
  "no_touch = \<lparr>startX = 0, startY = 0, currentX = 0, currentY = 0\<rparr>"

section \<open>Properties\<close>

subsection \<open>Auxiliary facts\<close>

lemma or_zero_simps [simp]: "or_zero (Some n) = n" "or_zero None = 0"
  by (simp_all add: or_zero_def)

lemma preload_one_eq:
  "preload_one ps j s =
     s\<lparr>head_preloads := head_preloads s
          @ (case preload_href (ps ! nat j) of None \<Rightarrow> [] | Some h \<Rightarrow> [h])\<rparr>"
  by (simp add: preload_one_def preload_href_def Let_def split: option.split)

lemma fold_preload_one:
  "fold (preload_one ps) js s =
     s\<lparr>head_preloads := head_preloads s @ List.map_filter (\<lambda>j. preload_href (ps ! nat j)) js\<rparr>"
proof (induction js arbitrary: s)
  case Nil
  show ?case by (simp add: List.map_filter_simps)
next
  case (Cons j js)
  have "fold (preload_one ps) (j # js) s = fold (preload_one ps) js (preload_one ps j s)"
    by simp
  also have "\<dots> = s\<lparr>head_preloads := head_preloads s
        @ List.map_filter (\<lambda>j. preload_href (ps ! nat j)) (j # js)\<rparr>"
    by (simp add: Cons.IH preload_one_eq List.map_filter_simps split: option.split)
  finally show ?case .
qed

lemma preloadAdjacentImages_eq:
  "preloadAdjacentImages i ps s =
     s\<lparr>head_preloads := head_preloads s
          @ List.map_filter (\<lambda>j. preload_href (ps ! nat j)) (preloadIndices i ps)\<rparr>"
  by (simp add: preloadAdjacentImages_def fold_preload_one)

lemma navigateToIndex_photos [simp]:
  "lightboxPhotos (navigateToIndex i s) = lightboxPhotos s"
  by (simp add: navigateToIndex_def preloadAdjacentImages_eq announceToScreenReader_def Let_def
           split: option.split)

lemma navigateToIndex_cursor:
  "lightboxCurrentIndex (navigateToIndex i s) =
     (case lightboxPhotos s of
        None \<Rightarrow> lightboxCurrentIndex s
      | Some ps \<Rightarrow>
          if 0 \<le> i \<and> i < int (length ps) \<and> item_img (ps ! nat i) \<noteq> None then Some i
          else lightboxCurrentIndex s)"
  by (auto simp add: navigateToIndex_def preloadAdjacentImages_eq announceToScreenReader_def Let_def
           split: option.split)

lemma navigateToIndex_visible [simp]:
  "lb_visible (navigateToIndex i s) = lb_visible s"
  "has_lightbox (navigateToIndex i s) = has_lightbox s"
  by (simp_all add: navigateToIndex_def preloadAdjacentImages_eq announceToScreenReader_def Let_def
           split: option.split)

lemma openLightbox_stored:
  assumes "has_lightbox s" "has_image s" "has_caption s"
  shows "lightboxPhotos (openLightbox src caption k ps s) = Some ps"
    and "lightboxCurrentIndex (openLightbox src caption k ps s) = Some k"
    and "lb_visible (openLightbox src caption k ps s)"
    and "has_lightbox (openLightbox src caption k ps s)"
  using assms
  by (simp_all add: openLightbox_def trapFocus_def preloadAdjacentImages_eq Let_def
           split: list.split)

lemma closed_page_dom:
  "has_lightbox closed_page" "has_image closed_page" "has_caption closed_page"
  "\<not> lb_visible closed_page"
  by (simp_all add: closed_page_def)

lemma open_page_facts:
  "lightboxPhotos open_page = Some gallery"
  "lightboxCurrentIndex open_page = Some 0"
  "lb_visible open_page" "has_lightbox open_page"
  by (simp_all add: open_page_def openLightbox_stored closed_page_dom)

lemma gallery_facts:
  "length gallery = 3"
  "item_img (gallery ! 0) \<noteq> None" "item_img (gallery ! 1) \<noteq> None"
  "item_img (gallery ! 2) \<noteq> None"
  by (simp_all add: gallery_def photo_def)

lemma mixed_page_facts:
  "lightboxPhotos mixed_page = Some [bare_item, photo ''b.jpg'' ''B'']"
  "lightboxCurrentIndex mixed_page = Some 1"
  "lb_visible mixed_page" "has_lightbox mixed_page"
  by (simp_all add: mixed_page_def openLightbox_stored closed_page_dom)

lemma fold_touchmove_start:
  "startX (fold touchmove moves t) = startX t \<and> startY (fold touchmove moves t) = startY t"
proof (induction moves arbitrary: t)
  case Nil
  show ?case by simp
next
  case (Cons e moves)
  have "startX (touchmove e t) = startX t \<and> startY (touchmove e t) = startY t"
    by (simp add: touchmove_def split: option.split prod.split)
  with Cons.IH [of "touchmove e t"] show ?case by simp
qed

lemma preloadIndices_window:
  "preloadIndices i photoItems = spec_preload_window i (length photoItems)"
  by (simp add: preloadIndices_def spec_preload_window_def)

text \<open>A visible overlay always comes with a stored list of items.\<close>

lemma closeLightbox_keeps:
  "lb_visible (closeLightbox s) = lb_visible s"
  "lightboxPhotos (closeLightbox s) = lightboxPhotos s"
  by (simp_all add: closeLightbox_def Let_def split: option.split)

lemma navigateNext_keeps:
  "lb_visible (navigateNext s) = lb_visible s"
  "lightboxPhotos (navigateNext s) = lightboxPhotos s"
  by (simp_all add: navigateNext_def Let_def split: option.split)

lemma navigatePrevious_keeps:
  "lb_visible (navigatePrevious s) = lb_visible s"
  "lightboxPhotos (navigatePrevious s) = lightboxPhotos s"
  by (simp_all add: navigatePrevious_def Let_def split: option.split)

lemma run_timer_keeps:
  assumes "run_timer cb s = Inr s' \<or> run_timer cb s = Inl (e, s')"
  shows "lightboxPhotos s' = lightboxPhotos s" and "lb_visible s' \<Longrightarrow> lb_visible s"
  using assms by (cases cb; auto simp add: Let_def split: if_splits)+

lemma openLightbox_visible_stored:
  "lb_visible (openLightbox src caption k ps s) \<Longrightarrow> lb_visible s \<longrightarrow> lightboxPhotos s \<noteq> None \<Longrightarrow>
   lightboxPhotos (openLightbox src caption k ps s) \<noteq> None"
  by (cases "has_lightbox s \<and> has_image s \<and> has_caption s")
     (auto simp add: openLightbox_stored, auto simp add: openLightbox_def)

lemma visible_page_stores_photos:
  "reachable s \<Longrightarrow> lb_visible s \<Longrightarrow> lightboxPhotos s \<noteq> None"
proof (induction rule: reachable.induct)
  case (loaded s)
  then show ?case by simp
next
  case (opened s src caption startIndex photoItems)
  then show ?case using openLightbox_visible_stored by blast
next
  case (closed s)
  then show ?case by (simp add: closeLightbox_keeps)
next
  case (went s index)
  then show ?case by simp
next
  case (went_next s)
  then show ?case by (simp add: navigateNext_keeps)
next
  case (went_previous s)
  then show ?case by (simp add: navigatePrevious_keeps)
next
  case (timer s cb s')
  then show ?case using run_timer_keeps [of cb s s'] by auto
next
  case (timer_threw s cb e s')
  then show ?case using run_timer_keeps [of cb s s' e] by auto
qed

lemma open_page_reachable: "reachable open_page"
  unfolding open_page_def by (rule reachable.opened, rule reachable.loaded) (simp add: closed_page_dom)

subsection \<open>C1: the cursor stays inside the stored list\<close>

text \<open>
  C1, as amended. Navigation keeps the cursor inside the stored list: when the cursor is
  in \<open>[0, length)\<close>, it still is after \<open>next()\<close>, after \<open>previous()\<close> and after
  \<open>goto(index)\<close> for any index. \<open>openLightbox\<close> stores the start index it is given
  without looking at it: after opening, the overlay is open and the cursor is in
  \<open>[0, length)\<close> exactly when the given start index is.
\<close>

theorem cursor_preserved:
  "(cursor_in_bounds s \<longrightarrow>
      cursor_in_bounds (navigateNext s) \<and> cursor_in_bounds (navigatePrevious s)
      \<and> cursor_in_bounds (navigateToIndex index s))
   \<and> (has_lightbox s \<and> has_image s \<and> has_caption s \<longrightarrow>
        isOpen (openLightbox src caption startIndex photoItems s)
        \<and> (cursor_in_bounds (openLightbox src caption startIndex photoItems s)
             \<longleftrightarrow> 0 \<le> startIndex \<and> startIndex < int (length photoItems)))"
proof -
  have goto: "cursor_in_bounds (navigateToIndex i s)" if "cursor_in_bounds s" for i
    using that
    by (auto simp add: cursor_in_bounds_def navigateToIndex_cursor split: option.splits)
  have nxt: "cursor_in_bounds (navigateNext s)" if "cursor_in_bounds s"
    using that goto by (simp add: navigateNext_def Let_def split: option.split)
  have prv: "cursor_in_bounds (navigatePrevious s)" if "cursor_in_bounds s"
    using that goto by (simp add: navigatePrevious_def Let_def split: option.split)
  have opn: "isOpen (openLightbox src caption startIndex photoItems s)
        \<and> (cursor_in_bounds (openLightbox src caption startIndex photoItems s)
             \<longleftrightarrow> 0 \<le> startIndex \<and> startIndex < int (length photoItems))"
    if "has_lightbox s" "has_image s" "has_caption s"
    using that by (simp add: isOpen_def cursor_in_bounds_def openLightbox_stored)
  show ?thesis using goto nxt prv opn by blast
qed

text \<open>The hypotheses of C1 hold on the example gallery.\<close>

theorem cursor_preserved_witness:
  "cursor_in_bounds open_page
   \<and> cursor_in_bounds (navigateNext open_page)
   \<and> cursor_in_bounds (navigatePrevious open_page)
   \<and> cursor_in_bounds (navigateToIndex 2 open_page)
   \<and> has_lightbox closed_page \<and> has_image closed_page \<and> has_caption closed_page
   \<and> isOpen (openLightbox ''b.jpg'' ''B'' 1 gallery closed_page)
   \<and> cursor_in_bounds (openLightbox ''b.jpg'' ''B'' 1 gallery closed_page)"
proof -
  have h: "cursor_in_bounds open_page"
    by (simp add: cursor_in_bounds_def open_page_facts gallery_facts)
  show ?thesis
    using h cursor_preserved [of open_page 2]
      cursor_preserved [of closed_page _ "''b.jpg''" "''B''" 1 gallery]
    by (simp add: closed_page_dom gallery_facts)
qed

text \<open>
  C1 as stated fails for opening: with start index 5 over three items the overlay is open
  and the cursor is 5; with the defaults of \<open>lightboxAPI.open\<close> (index 0, no items) the
  overlay is open and the cursor 0 is not below the length 0.
\<close>

theorem open_unchecked_index_counterexample:
  "isOpen (openLightbox ''a.jpg'' ''A'' 5 gallery closed_page)
   \<and> \<not> cursor_in_bounds (openLightbox ''a.jpg'' ''A'' 5 gallery closed_page)
   \<and> isOpen (lightboxAPI_open ''a.jpg'' ''A'' None None closed_page)
   \<and> \<not> cursor_in_bounds (lightboxAPI_open ''a.jpg'' ''A'' None None closed_page)"
  by (simp add: isOpen_def cursor_in_bounds_def lightboxAPI_open_def openLightbox_stored
        closed_page_dom gallery_facts)

subsection \<open>C2: goto and getCurrentIndex\<close>

text \<open>
  C2, as amended. For every stored list of items and every index \<open>i\<close> in \<open>[0, n)\<close>
  whose item contains an image element, \<open>goto(i)\<close> followed by \<open>getCurrentIndex()\<close>
  returns \<open>i\<close>.
\<close>

theorem goto_then_getCurrentIndex:
  "lightboxPhotos s = Some photos \<Longrightarrow> 0 \<le> i \<Longrightarrow> i < int (length photos) \<Longrightarrow>
   item_img (photos ! nat i) \<noteq> None \<Longrightarrow>
   getCurrentIndex (navigateToIndex i s) = i"
  by (simp add: getCurrentIndex_def navigateToIndex_cursor or_zero_def)

text \<open>
  The hypotheses of C2 hold for index 2 of the example gallery.
\<close>

theorem goto_then_getCurrentIndex_witness:
  "lightboxPhotos open_page = Some gallery \<and> (0::int) \<le> 2 \<and> 2 < int (length gallery)
   \<and> item_img (gallery ! nat 2) \<noteq> None
   \<and> getCurrentIndex (navigateToIndex 2 open_page) = 2"
  using goto_then_getCurrentIndex [of open_page gallery 2]
  by (simp add: open_page_facts gallery_facts)

text \<open>
  C2 as stated fails when the item at the index holds no image: index 0 is valid in the
  two-item list, and after \<open>goto(0)\<close> the cursor is still 1.
\<close>

theorem goto_valid_index_counterexample:
  "lightboxPhotos mixed_page = Some [bare_item, photo ''b.jpg'' ''B'']
   \<and> (0::int) \<le> 0 \<and> 0 < int (length [bare_item, photo ''b.jpg'' ''B''])
   \<and> getCurrentIndex (navigateToIndex 0 mixed_page) \<noteq> 0"
  by (simp add: getCurrentIndex_def navigateToIndex_cursor or_zero_def mixed_page_facts
        bare_item_def)

subsection \<open>C3: next and previous wrap around\<close>

text \<open>
  C3, as amended. Let \<open>c\<close> be the cursor of a lightbox over \<open>n \<ge> 1\<close> items, inside
  \<open>[0, n)\<close>. When the item to be shown contains an image element, \<open>next()\<close> moves the
  cursor to \<open>c + 1\<close>, and from \<open>n - 1\<close> to \<open>0\<close>; \<open>previous()\<close> moves it to
  \<open>c - 1\<close>, and from \<open>0\<close> to \<open>n - 1\<close>.
\<close>

theorem next_previous_wraparound:
  assumes "lightboxPhotos s = Some photos" and "1 \<le> length photos"
    and "c = getCurrentIndex s" and "0 \<le> c" and "c < int (length photos)"
  shows
    "(c < int (length photos) - 1 \<and> item_img (photos ! nat (c + 1)) \<noteq> None \<longrightarrow>
        getCurrentIndex (navigateNext s) = c + 1)
     \<and> (c = int (length photos) - 1 \<and> item_img (photos ! 0) \<noteq> None \<longrightarrow>
        getCurrentIndex (navigateNext s) = 0)
     \<and> (0 < c \<and> item_img (photos ! nat (c - 1)) \<noteq> None \<longrightarrow>
        getCurrentIndex (navigatePrevious s) = c - 1)
     \<and> (c = 0 \<and> item_img (photos ! (length photos - 1)) \<noteq> None \<longrightarrow>
        getCurrentIndex (navigatePrevious s) = int (length photos) - 1)"
proof -
  have c: "or_zero (lightboxCurrentIndex s) = c"
    using assms(3) by (simp add: getCurrentIndex_def)
  have ne: "photos \<noteq> []"
    using assms(2) by auto
  have last: "nat (int (length photos) - 1) = length photos - 1"
    by simp
  have n1: "getCurrentIndex (navigateNext s) = c + 1"
    if "c < int (length photos) - 1" "item_img (photos ! nat (c + 1)) \<noteq> None"
    using that assms(1,4)
    by (auto simp add: getCurrentIndex_def navigateNext_def navigateToIndex_cursor Let_def c)
  have n2: "getCurrentIndex (navigateNext s) = 0"
    if "c = int (length photos) - 1" "item_img (photos ! 0) \<noteq> None"
    using that assms(1) ne c
    by (simp add: getCurrentIndex_def navigateNext_def navigateToIndex_cursor Let_def)
  have p1: "getCurrentIndex (navigatePrevious s) = c - 1"
    if "0 < c" "item_img (photos ! nat (c - 1)) \<noteq> None"
    using that assms(1,5)
    by (auto simp add: getCurrentIndex_def navigatePrevious_def navigateToIndex_cursor Let_def c)
  have p2: "getCurrentIndex (navigatePrevious s) = int (length photos) - 1"
    if "c = 0" "item_img (photos ! (length photos - 1)) \<noteq> None"
    using that assms(1) ne c
    by (simp add: getCurrentIndex_def navigatePrevious_def navigateToIndex_cursor Let_def last)
  show ?thesis using n1 n2 p1 p2 by blast
qed

text \<open>
  The hypotheses of C3 hold on the example gallery, opened on its first and on its last photo.
\<close>

theorem next_previous_wraparound_witness:
  "lightboxPhotos open_page = Some gallery \<and> 1 \<le> length gallery
   \<and> 0 = getCurrentIndex open_page \<and> (0::int) \<le> 0 \<and> 0 < int (length gallery)
   \<and> (0::int) < int (length gallery) - 1 \<and> item_img (gallery ! nat (0 + 1)) \<noteq> None
   \<and> getCurrentIndex (navigateNext open_page) = 0 + 1
   \<and> item_img (gallery ! (length gallery - 1)) \<noteq> None
   \<and> getCurrentIndex (navigatePrevious open_page) = int (length gallery) - 1
   \<and> lightboxPhotos last_page = Some gallery
   \<and> 2 = getCurrentIndex last_page \<and> (2::int) = int (length gallery) - 1
   \<and> item_img (gallery ! 0) \<noteq> None
   \<and> getCurrentIndex (navigateNext last_page) = 0
   \<and> (0::int) < 2 \<and> item_img (gallery ! nat (2 - 1)) \<noteq> None
   \<and> getCurrentIndex (navigatePrevious last_page) = 2 - 1"
proof -
  have c: "0 = getCurrentIndex open_page"
    by (simp add: getCurrentIndex_def open_page_facts)
  have l: "lightboxPhotos last_page = Some gallery" "2 = getCurrentIndex last_page"
    by (simp_all add: getCurrentIndex_def last_page_def openLightbox_stored closed_page_dom)
  show ?thesis
    using c l next_previous_wraparound [of open_page gallery 0]
      next_previous_wraparound [of last_page gallery 2]
    by (simp add: open_page_facts gallery_def photo_def)
qed

text \<open>
  C3 as stated fails when the item to be shown holds no image: in the open two-item
  lightbox the cursor is \<open>n - 1 = 1\<close>, and neither \<open>next()\<close> nor \<open>previous()\<close>
  brings it to 0.
  It also fails when the lightbox was opened on an index outside the list: from cursor 5
  over three items, \<open>next()\<close> yields 0.
\<close>

theorem next_imageless_target_counterexample:
  "lightboxPhotos mixed_page = Some [bare_item, photo ''b.jpg'' ''B'']
   \<and> isOpen mixed_page
   \<and> getCurrentIndex mixed_page = int (length [bare_item, photo ''b.jpg'' ''B'']) - 1
   \<and> getCurrentIndex (navigateNext mixed_page) \<noteq> 0
   \<and> getCurrentIndex (navigatePrevious mixed_page) \<noteq> getCurrentIndex mixed_page - 1
   \<and> isOpen (openLightbox ''a.jpg'' ''A'' 5 gallery closed_page)
   \<and> getCurrentIndex (openLightbox ''a.jpg'' ''A'' 5 gallery closed_page) = 5
   \<and> getCurrentIndex (navigateNext (openLightbox ''a.jpg'' ''A'' 5 gallery closed_page)) = 0"
  by (simp add: isOpen_def getCurrentIndex_def navigateNext_def navigatePrevious_def
        navigateToIndex_cursor mixed_page_facts bare_item_def Let_def
        openLightbox_stored closed_page_dom gallery_def photo_def)

subsection \<open>C4: goto outside the bounds\<close>

text \<open>
  C4. For every index below 0 or at least the number of stored items, \<open>goto(index)\<close>
  returns the page as it was: cursor, image, caption, timers and everything else are
  unchanged. \<open>navigateToIndex\<close> has no throwing branch, so no error is surfaced.
\<close>

theorem goto_out_of_bounds:
  "index < 0 \<or> index \<ge> int (getTotalPhotos s) \<Longrightarrow> navigateToIndex index s = s"
proof (cases "lightboxPhotos s")
  case None
  then show ?thesis by (simp add: navigateToIndex_def)
next
  case (Some photos)
  assume "index < 0 \<or> index \<ge> int (getTotalPhotos s)"
  with Some have "index < 0 \<or> index \<ge> int (length photos)"
    by (simp add: getTotalPhotos_def)
  with Some show ?thesis by (simp add: navigateToIndex_def)
qed

text \<open>
  The hypothesis of C4 holds for the indices 3 and -1 on the three-item gallery.
\<close>

theorem goto_out_of_bounds_witness:
  "((3::int) < 0 \<or> 3 \<ge> int (getTotalPhotos open_page))
   \<and> navigateToIndex 3 open_page = open_page
   \<and> ((- 1 ::int) < 0 \<or> - 1 \<ge> int (getTotalPhotos open_page))
   \<and> navigateToIndex (- 1) open_page = open_page"
  using goto_out_of_bounds [of 3 open_page] goto_out_of_bounds [of "- 1" open_page]
  by (simp add: getTotalPhotos_def open_page_facts gallery_facts)

subsection \<open>C5: swipes\<close>

text \<open>
  C5, as amended. For every touch gesture whose start coordinates are both non-zero, with
  horizontal displacement \<open>deltaX\<close> and vertical displacement \<open>deltaY\<close>: if
  \<open>|deltaX| > 50\<close> and \<open>|deltaX| > |deltaY|\<close>, releasing the touch runs \<open>previous()\<close>
  once when \<open>deltaX > 0\<close> and \<open>next()\<close> once when \<open>deltaX < 0\<close>; otherwise it leaves
  the page as it was.
\<close>

theorem swipe_navigation:
  assumes "startX t \<noteq> 0" and "startY t \<noteq> 0"
    and "deltaX = currentX t - startX t" and "deltaY = currentY t - startY t"
  shows
    "(\<bar>deltaX\<bar> > 50 \<and> \<bar>deltaX\<bar> > \<bar>deltaY\<bar> \<and> deltaX > 0 \<longrightarrow>
        snd (touchend (t, s)) = navigatePrevious s)
     \<and> (\<bar>deltaX\<bar> > 50 \<and> \<bar>deltaX\<bar> > \<bar>deltaY\<bar> \<and> deltaX < 0 \<longrightarrow>
        snd (touchend (t, s)) = navigateNext s)
     \<and> (\<not> (\<bar>deltaX\<bar> > 50 \<and> \<bar>deltaX\<bar> > \<bar>deltaY\<bar>) \<longrightarrow> snd (touchend (t, s)) = s)"
proof -
  have "snd (touchend (t, s)) =
          (if \<bar>deltaX\<bar> > \<bar>deltaY\<bar> \<and> \<bar>deltaX\<bar> > 50
           then (if deltaX > 0 then navigatePrevious s else navigateNext s) else s)"
    unfolding assms(3,4) using assms(1,2) by (simp add: touchend_def Let_def)
  then show ?thesis by auto
qed

text \<open>
  The hypotheses of C5 hold for swipes of 60 pixels to the left and to the right with 10
  pixels of vertical drift, and for a vertical swipe of 60 pixels with 10 of horizontal drift.
\<close>

theorem swipe_navigation_witness:
  "startX \<lparr>startX = 200, startY = 300, currentX = 140, currentY = 310\<rparr> \<noteq> 0
   \<and> startY \<lparr>startX = 200, startY = 300, currentX = 140, currentY = 310\<rparr> \<noteq> 0
   \<and> \<bar>- 60 :: int\<bar> > 50 \<and> \<bar>- 60 :: int\<bar> > \<bar>10 :: int\<bar> \<and> (- 60 :: int) < 0
   \<and> snd (touchend (\<lparr>startX = 200, startY = 300, currentX = 140, currentY = 310\<rparr>, open_page))
       = navigateNext open_page
   \<and> \<bar>60 :: int\<bar> > 50 \<and> \<bar>60 :: int\<bar> > \<bar>10 :: int\<bar> \<and> (60 :: int) > 0
   \<and> snd (touchend (\<lparr>startX = 200, startY = 300, currentX = 260, currentY = 310\<rparr>, open_page))
       = navigatePrevious open_page
   \<and> \<not> (\<bar>10 :: int\<bar> > 50 \<and> \<bar>10 :: int\<bar> > \<bar>60 :: int\<bar>)
   \<and> snd (touchend (\<lparr>startX = 200, startY = 300, currentX = 210, currentY = 360\<rparr>, open_page))
       = open_page"
  using swipe_navigation
          [of "\<lparr>startX = 200, startY = 300, currentX = 140, currentY = 310\<rparr>" "- 60" 10 open_page]
        swipe_navigation
          [of "\<lparr>startX = 200, startY = 300, currentX = 260, currentY = 310\<rparr>" 60 10 open_page]
        swipe_navigation
          [of "\<lparr>startX = 200, startY = 300, currentX = 210, currentY = 360\<rparr>" 10 60 open_page]
  by simp

text \<open>
  C5 as stated fails for a gesture that starts on the top edge: from \<open>(200, 0)\<close> to
  \<open>(140, 10)\<close> the displacement is 60 pixels to the left and 10 down, yet the page is
  left as it was, which is not the page after \<open>next()\<close>.
\<close>

theorem swipe_from_edge_counterexample:
  "\<bar>140 - 200 :: int\<bar> > 50 \<and> \<bar>140 - 200 :: int\<bar> > \<bar>10 - 0 :: int\<bar> \<and> (140 - 200 :: int) < 0
   \<and> snd (gesture (200, 0) [Some (140, 10)] (no_touch, open_page)) = open_page
   \<and> snd (gesture (200, 0) [Some (140, 10)] (no_touch, open_page)) \<noteq> navigateNext open_page"
proof -
  have g: "snd (gesture (200, 0) [Some (140, 10)] (no_touch, open_page)) = open_page"
    by (simp add: gesture_def touchend_def touchstart_def touchmove_def no_touch_def)
  have "lightboxCurrentIndex (navigateNext open_page) = Some 1"
    by (simp add: navigateNext_def navigateToIndex_cursor Let_def open_page_facts
          gallery_def photo_def)
  then have "navigateNext open_page \<noteq> open_page"
    using open_page_facts(2) by auto
  with g show ?thesis by simp
qed

subsection \<open>C6: keys\<close>

text \<open>
  C6. While the overlay is open, ArrowLeft runs \<open>previous()\<close>, ArrowRight runs
  \<open>next()\<close>, Home runs \<open>goto(0)\<close>, End runs \<open>goto(length - 1)\<close> on the stored list and
  Escape runs \<open>close()\<close>, in the key handler and in the dedicated Escape listener alike.
  While the overlay is closed, no key changes the page through either listener.
  End reads the length of the stored list; a reachable page with a visible overlay has one,
  and there End runs \<open>goto(getTotalPhotos() - 1)\<close>.
\<close>

theorem keyboard_mapping:
  "(isOpen s \<longrightarrow>
      handleLightboxKeydown ''ArrowLeft'' s = Inr (navigatePrevious s)
      \<and> handleLightboxKeydown ''ArrowRight'' s = Inr (navigateNext s)
      \<and> handleLightboxKeydown ''Home'' s = Inr (navigateToIndex 0 s)
      \<and> (lightboxPhotos s = Some photos \<longrightarrow>
            handleLightboxKeydown ''End'' s = Inr (navigateToIndex (int (length photos) - 1) s))
      \<and> (reachable s \<longrightarrow>
            handleLightboxKeydown ''End'' s
              = Inr (navigateToIndex (int (getTotalPhotos s) - 1) s))
      \<and> handleLightboxKeydown ''Escape'' s = Inr (closeLightbox s)
      \<and> handleEscapeKey ''Escape'' s = closeLightbox s)
   \<and> (\<not> isOpen s \<longrightarrow> handleLightboxKeydown key s = Inr s \<and> handleEscapeKey key s = s)"
proof -
  have closed: "handleLightboxKeydown key s = Inr s \<and> handleEscapeKey key s = s"
    if "\<not> isOpen s"
    using that
    by (auto simp add: isOpen_def handleLightboxKeydown_def handleEscapeKey_def closeLightbox_def)
  have opened: "handleLightboxKeydown ''ArrowLeft'' s = Inr (navigatePrevious s)
      \<and> handleLightboxKeydown ''ArrowRight'' s = Inr (navigateNext s)
      \<and> handleLightboxKeydown ''Home'' s = Inr (navigateToIndex 0 s)
      \<and> (lightboxPhotos s = Some photos \<longrightarrow>
            handleLightboxKeydown ''End'' s = Inr (navigateToIndex (int (length photos) - 1) s))
      \<and> handleLightboxKeydown ''Escape'' s = Inr (closeLightbox s)
      \<and> handleEscapeKey ''Escape'' s = closeLightbox s"
    if "isOpen s"
    using that by (simp add: isOpen_def handleLightboxKeydown_def handleEscapeKey_def)
  have ending: "handleLightboxKeydown ''End'' s
              = Inr (navigateToIndex (int (getTotalPhotos s) - 1) s)"
    if "isOpen s" "reachable s"
  proof -
    from that have "lightboxPhotos s \<noteq> None"
      by (simp add: isOpen_def visible_page_stores_photos)
    then obtain ps where "lightboxPhotos s = Some ps" by auto
    with that(1) show ?thesis
      by (simp add: isOpen_def handleLightboxKeydown_def getTotalPhotos_def)
  qed
  show ?thesis using closed opened ending by blast
qed

text \<open>
  The hypotheses of C6 hold on the open example gallery and on the closed page.
\<close>

theorem keyboard_mapping_witness:
  "isOpen open_page
   \<and> handleLightboxKeydown ''ArrowLeft'' open_page = Inr (navigatePrevious open_page)
   \<and> handleLightboxKeydown ''ArrowRight'' open_page = Inr (navigateNext open_page)
   \<and> handleLightboxKeydown ''Home'' open_page = Inr (navigateToIndex 0 open_page)
   \<and> lightboxPhotos open_page = Some gallery
   \<and> handleLightboxKeydown ''End'' open_page = Inr (navigateToIndex (int (length gallery) - 1) open_page)
   \<and> reachable open_page
   \<and> handleLightboxKeydown ''End'' open_page = Inr (navigateToIndex 2 open_page)
   \<and> handleLightboxKeydown ''Escape'' open_page = Inr (closeLightbox open_page)
   \<and> \<not> isOpen closed_page
   \<and> handleLightboxKeydown ''End'' closed_page = Inr closed_page
   \<and> handleEscapeKey ''Escape'' closed_page = closed_page"
  using keyboard_mapping [of open_page gallery] keyboard_mapping [of closed_page _ "''End''"]
    keyboard_mapping [of closed_page _ "''Escape''"] open_page_reachable
  by (simp add: isOpen_def open_page_facts closed_page_dom getTotalPhotos_def gallery_facts)

subsection \<open>C7: closing a closed overlay\<close>

text \<open>
  C7. When the overlay is not open, \<open>close()\<close> returns the page as it was: classes, body
  scroll, listeners and focus are unchanged, and no timer is added.
\<close>

theorem close_when_closed:
  "\<not> isOpen s \<Longrightarrow> closeLightbox s = s \<and> timers (closeLightbox s) = timers s"
  by (auto simp add: isOpen_def closeLightbox_def)

text \<open>
  The hypothesis of C7 holds on the closed page.
\<close>

theorem close_when_closed_witness:
  "\<not> isOpen closed_page \<and> closeLightbox closed_page = closed_page
   \<and> timers (closeLightbox closed_page) = timers closed_page"
  using close_when_closed [of closed_page] by (simp add: isOpen_def closed_page_dom)

subsection \<open>C8: the preload window\<close>

text \<open>
  C8, as amended. For every current index \<open>i\<close> and list of \<open>n\<close> items, the preloader
  visits exactly the indices of \<open>{i-1, i+1, i+2}\<close> that lie in \<open>[0, n)\<close>, in this order,
  and appends one preload link for each of them whose item contains an image element with
  a non-empty source; nothing else on the page changes.
\<close>

theorem preload_hints:
  "preloadIndices i photoItems = spec_preload_window i (length photoItems)
   \<and> preloadAdjacentImages i photoItems s =
       s\<lparr>head_preloads := head_preloads s
            @ List.map_filter (\<lambda>j. preload_href (photoItems ! nat j))
                (spec_preload_window i (length photoItems))\<rparr>"
  by (simp add: preloadAdjacentImages_eq preloadIndices_window)

text \<open>
  C8 as stated fails when a neighbour holds no image or an image without a source: at
  index 1 of a list with such neighbours the window is \<open>[0, 2]\<close>, and no link is appended.
\<close>

theorem preload_imageless_neighbour_counterexample:
  "spec_preload_window 1 (length [bare_item, photo ''b.jpg'' ''B'', unsourced_item]) = [0, 2]
   \<and> head_preloads
         (preloadAdjacentImages 1 [bare_item, photo ''b.jpg'' ''B'', unsourced_item] closed_page)
       = head_preloads closed_page"
  by (simp add: spec_preload_window_def preloadAdjacentImages_eq preloadIndices_def
        preload_href_def bare_item_def unsourced_item_def photo_src_def or_str_def
        List.map_filter_simps)

subsection \<open>C9: goto to an item without an image\<close>

text \<open>
  C9. When the item at an index inside the bounds contains no image element,
  \<open>goto(index)\<close> returns the page as it was: cursor, image and caption are unchanged.
\<close>

theorem goto_imageless_item:
  "lightboxPhotos s = Some photos \<Longrightarrow> 0 \<le> index \<Longrightarrow> index < int (length photos) \<Longrightarrow>
   item_img (photos ! nat index) = None \<Longrightarrow> navigateToIndex index s = s"
  by (simp add: navigateToIndex_def)

text \<open>
  The hypotheses of C9 hold for index 0 of the two-item list.
\<close>

theorem goto_imageless_item_witness:
  "lightboxPhotos mixed_page = Some [bare_item, photo ''b.jpg'' ''B'']
   \<and> (0::int) \<le> 0 \<and> 0 < int (length [bare_item, photo ''b.jpg'' ''B''])
   \<and> item_img ([bare_item, photo ''b.jpg'' ''B''] ! nat 0) = None
   \<and> navigateToIndex 0 mixed_page = mixed_page"
  using goto_imageless_item [of mixed_page "[bare_item, photo ''b.jpg'' ''B'']" 0]
  by (simp add: mixed_page_facts bare_item_def)

subsection \<open>C10: gestures that start at coordinate 0\<close>

text \<open>
  C10. When the start x or the start y coordinate is 0, releasing the touch changes neither
  the touch variables nor the page; so a gesture that begins at such a point, whatever its
  moves, leaves the page as it was.
\<close>

theorem zero_start_never_navigates:
  "(startX t = 0 \<or> startY t = 0 \<longrightarrow> touchend (t, s) = (t, s))
   \<and> (fst down = 0 \<or> snd down = 0 \<longrightarrow> snd (gesture down moves (t, s)) = s)"
proof -
  have a: "touchend (t', s) = (t', s)" if "startX t' = 0 \<or> startY t' = 0" for t'
    using that by (auto simp add: touchend_def)
  have b: "snd (gesture down moves (t, s)) = s" if "fst down = 0 \<or> snd down = 0"
  proof -
    have "startX (touchstart (Some down) t) = fst down \<and> startY (touchstart (Some down) t) = snd down"
      by (simp add: touchstart_def split: prod.split)
    with that fold_touchmove_start [of moves "touchstart (Some down) t"]
    have "startX (fold touchmove moves (touchstart (Some down) t)) = 0
          \<or> startY (fold touchmove moves (touchstart (Some down) t)) = 0"
      by auto
    then show ?thesis by (simp add: gesture_def a)
  qed
  show ?thesis using a b by blast
qed

text \<open>
  The hypotheses of C10 hold for a touch on the left edge and for a gesture from the top edge.
\<close>

theorem zero_start_never_navigates_witness:
  "(startX \<lparr>startX = 0, startY = 300, currentX = 100, currentY = 300\<rparr> = 0
      \<or> startY \<lparr>startX = 0, startY = 300, currentX = 100, currentY = 300\<rparr> = 0)
   \<and> touchend (\<lparr>startX = 0, startY = 300, currentX = 100, currentY = 300\<rparr>, open_page)
       = (\<lparr>startX = 0, startY = 300, currentX = 100, currentY = 300\<rparr>, open_page)
   \<and> (fst (200 :: int, 0 :: int) = 0 \<or> snd (200 :: int, 0 :: int) = 0)
   \<and> snd (gesture (200, 0) [Some (140, 10)] (no_touch, open_page)) = open_page"
  using zero_start_never_navigates
          [of "\<lparr>startX = 0, startY = 300, currentX = 100, currentY = 300\<rparr>" open_page]
        zero_start_never_navigates [of no_touch open_page "(200, 0)" "[Some (140, 10)]"]
  by simp

end
